theory Spec2Isabelle
  imports Main "HOL-Library.Word"
begin

section \<open>The timer pool of arduino-timer\<close>

text \<open>
  The repository holds two headers with the same class \<open>TimerSet\<close>:
  \<^verbatim>\<open>arduino-timer-cpp17.hpp\<close> and the older \<^verbatim>\<open>arduino-timer.h\<close>. They share
  \<open>remove\<close>, \<open>next_timer_slot\<close>, \<open>add_timer\<close>, \<open>in\<close>, \<open>at\<close>, \<open>every\<close>,
  \<open>now_and_every\<close> and the two loops of \<open>tick\<close>; they differ in the \<open>repeat\<close> case of
  the switch in \<open>tick\<close>, and only the C++17 header has \<open>reschedule_timer\<close>,
  \<open>reschedule_in\<close> and \<open>reschedule_at\<close>.
\<close>

subsection \<open>Data\<close>

text \<open>
  \<open>Timepoint\<close> is \<^verbatim>\<open>unsigned long\<close>: an unsigned machine integer whose width depends
  on the target (32 bits on AVR). It is a word of any width \<open>'w\<close>; \<open>+\<close> and \<open>-\<close> wrap,
  \<open>\<le>\<close> and \<open><\<close> compare unsigned values.
\<close>

type_synonym 'w Timepoint = "'w word"

text \<open>\<^verbatim>\<open>enum class TimerStatus { completed, repeat, reschedule }\<close> (the older header
  spells the first one \<open>complete\<close>).\<close>

datatype TimerStatus = Completed | Repeat | Reschedule

text \<open>\<open>HandlerResult\<close>: a status and the \<open>next\<close> payload; \<open>tick\<close> takes it apart with
  \<^verbatim>\<open>auto [ status, next ] = timer.handler()\<close>.\<close>

type_synonym 'w HandlerResult = "TimerStatus \<times> 'w word"

text \<open>
  \<open>Handler\<close> is \<^verbatim>\<open>std::function<HandlerResult (void)>\<close>, which may be empty:
  \<open>None\<close> is the empty function object (\<^verbatim>\<open>Handler()\<close>, \<^verbatim>\<open>!t.handler\<close>), \<open>Some h\<close>
  holds the callable \<open>h\<close>. What calling \<open>h\<close> does is given by the parameter \<open>call\<close> of
  \<open>tick\<close> below.
\<close>

type_synonym 'h Handler = "'h option"

text \<open>The slot; its three time fields have the type \<open>'t\<close>, which is \<open>'w word\<close> throughout.\<close>

record ('h, 't) Timer =
  handler :: "'h Handler"
  start :: 't
  expires :: 't
  repeat :: 't

text \<open>
  \<open>TimerHandle\<close> is \<^verbatim>\<open>std::optional<std::reference_wrapper<Timer>>\<close>: empty, or a
  reference to a \<open>Timer\<close> object. A reference to slot \<open>i\<close> of the array is \<open>Some i\<close>.
\<close>

type_synonym TimerHandle = "nat option"

text \<open>
  The state: the member \<^verbatim>\<open>std::array<Timer, max_timers> timers\<close> as a function from
  the slot index to the slot (the slots of the array are the indices below the template
  parameter \<open>max_timers\<close>, which the operations take as their first argument), and
  everything outside the object that a handler or the clock can read or change
  (\<open>world\<close>).
\<close>

record ('h, 't, 'e) state =
  timers :: "nat \<Rightarrow> ('h, 't) Timer"
  world :: 'e

text \<open>Which header's \<open>tick\<close> runs.\<close>

datatype header = Cpp17 | Legacy

subsection \<open>The pool\<close>

text \<open>\<open>remove\<close>: nothing on an empty handle; otherwise the slot is emptied and zeroed.\<close>

definition remove :: "TimerHandle \<Rightarrow> ('h, 'w::len word, 'e) state \<Rightarrow> ('h, 'w word, 'e) state" where
  "remove handle s =
     (case handle of
        None \<Rightarrow> s
      | Some i \<Rightarrow>
          s\<lparr>timers := (timers s)
               (i := (timers s i)\<lparr>handler := None, start := 0, expires := 0, repeat := 0\<rparr>)\<rparr>)"

text \<open>\<open>next_timer_slot\<close>: \<^verbatim>\<open>std::find_if\<close> over the array for the first slot with an
  empty handler; \<open>None\<close> is \<^verbatim>\<open>timers.end()\<close>.\<close>

definition next_timer_slot :: "nat \<Rightarrow> ('h, 'w::len word, 'e) state \<Rightarrow> nat option" where
  "next_timer_slot max_timers s =
     find (\<lambda>i. handler (timers s i) = None) [0..<max_timers]"

definition add_timer ::
  "nat \<Rightarrow> 'w word \<Rightarrow> 'w word \<Rightarrow> 'h Handler \<Rightarrow> 'w word \<Rightarrow> ('h, 'w::len word, 'e) state
     \<Rightarrow> TimerHandle \<times> ('h, 'w word, 'e) state" where
  "add_timer max_timers st ex h rp s =
     (case next_timer_slot max_timers s of
        Some i \<Rightarrow>
          (Some i,
           s\<lparr>timers := (timers s)
                (i := (timers s i)\<lparr>handler := h, start := st, expires := ex, repeat := rp\<rparr>)\<rparr>)
      | None \<Rightarrow> (None, s))"

definition reschedule_timer ::
  "TimerHandle \<Rightarrow> 'w word \<Rightarrow> 'w word \<Rightarrow> ('h, 'w::len word, 'e) state
     \<Rightarrow> TimerHandle \<times> ('h, 'w word, 'e) state" where
  "reschedule_timer handle st ex s =
     (case handle of
        None \<Rightarrow> (handle, s)
      | Some i \<Rightarrow>
          if handler (timers s i) = None then (handle, s)
          else (handle,
                s\<lparr>timers := (timers s) (i := (timers s i)\<lparr>start := st, expires := ex\<rparr>)\<rparr>))"

subsection \<open>The scheduling operations\<close>

text \<open>
  \<open>now\<close> is \<^verbatim>\<open>clock::now()\<close> (\<open>time_func\<close> in the older header): it reads the world
  and may change it, since time passes between two readings. \<open>read_clock\<close> is one such
  call: the reading, and the state after it.
\<close>

definition read_clock ::
  "('e \<Rightarrow> 'w word \<times> 'e) \<Rightarrow> ('h, 'w::len word, 'e) state \<Rightarrow> 'w word \<times> ('h, 'w word, 'e) state" where
  "read_clock now s = (fst (now (world s)), s\<lparr>world := snd (now (world s))\<rparr>)"

text \<open>\<open>in\<close> of the source (\<open>in\<close> is a reserved word here).\<close>

definition timer_in ::
  "nat \<Rightarrow> ('e \<Rightarrow> 'w word \<times> 'e) \<Rightarrow> 'w word \<Rightarrow> 'h Handler \<Rightarrow> ('h, 'w::len word, 'e) state
     \<Rightarrow> TimerHandle \<times> ('h, 'w word, 'e) state" where
  "timer_in max_timers now delay h s =
     (case read_clock now s of (t, s1) \<Rightarrow> add_timer max_timers t delay h 0 s1)"

text \<open>\<open>at\<close> of the source.\<close>

definition timer_at ::
  "nat \<Rightarrow> ('e \<Rightarrow> 'w word \<times> 'e) \<Rightarrow> 'w word \<Rightarrow> 'h Handler \<Rightarrow> ('h, 'w::len word, 'e) state
     \<Rightarrow> TimerHandle \<times> ('h, 'w word, 'e) state" where
  "timer_at max_timers now when h s =
     (case read_clock now s of (t, s1) \<Rightarrow> add_timer max_timers t (when - t) h 0 s1)"

definition every ::
  "nat \<Rightarrow> ('e \<Rightarrow> 'w word \<times> 'e) \<Rightarrow> 'w word \<Rightarrow> 'h Handler \<Rightarrow> ('h, 'w::len word, 'e) state
     \<Rightarrow> TimerHandle \<times> ('h, 'w word, 'e) state" where
  "every max_timers now interval h s =
     (case read_clock now s of (t, s1) \<Rightarrow> add_timer max_timers t interval h interval s1)"

definition now_and_every ::
  "nat \<Rightarrow> ('e \<Rightarrow> 'w word \<times> 'e) \<Rightarrow> 'w word \<Rightarrow> 'h Handler \<Rightarrow> ('h, 'w::len word, 'e) state
     \<Rightarrow> TimerHandle \<times> ('h, 'w word, 'e) state" where
  "now_and_every max_timers now interval h s =
     (case read_clock now s of (t, s1) \<Rightarrow> add_timer max_timers t t h interval s1)"

text \<open>
  \<open>cancel\<close> of the C++17 header, which binds the slot by reference
  (\<^verbatim>\<open>auto& timer\<close>) and returns the handle. The older header's \<open>cancel\<close> writes
  \<^verbatim>\<open>auto timer = handle.value().get()\<close>, a copy of the \<open>Timer\<close>, whose copy
  constructor is deleted; it is not modelled.
\<close>

definition cancel ::
  "TimerHandle \<Rightarrow> ('h, 'w::len word, 'e) state \<Rightarrow> TimerHandle \<times> ('h, 'w word, 'e) state" where
  "cancel handle s =
     (case handle of
        None \<Rightarrow> (handle, s)
      | Some i \<Rightarrow>
          if handler (timers s i) = None then (handle, s)
          else (handle, remove (Some i) s))"

definition reschedule_in ::
  "('e \<Rightarrow> 'w word \<times> 'e) \<Rightarrow> TimerHandle \<Rightarrow> 'w word \<Rightarrow> ('h, 'w::len word, 'e) state
     \<Rightarrow> TimerHandle \<times> ('h, 'w word, 'e) state" where
  "reschedule_in now handle delay s =
     (case read_clock now s of (t, s1) \<Rightarrow> reschedule_timer handle t delay s1)"

definition reschedule_at ::
  "('e \<Rightarrow> 'w word \<times> 'e) \<Rightarrow> TimerHandle \<Rightarrow> 'w word \<Rightarrow> ('h, 'w::len word, 'e) state
     \<Rightarrow> TimerHandle \<times> ('h, 'w word, 'e) state" where
  "reschedule_at now handle when s =
     (case read_clock now s of (t, s1) \<Rightarrow> reschedule_timer handle t (when - t) s1)"

subsection \<open>tick\<close>

text \<open>
  The switch on the handler's status, for the slot \<open>i\<close> that fired at the reading \<open>t\<close>,
  in the state \<open>s\<close> the handler left. The \<open>repeat\<close> case of the C++17 header tests
  \<^verbatim>\<open>timer.repeat > 0\<close> and removes the timer otherwise; the older header rearms
  without the test.
\<close>

definition rearm :: "nat \<Rightarrow> 'w word \<Rightarrow> 'w word \<Rightarrow> ('h, 'w::len word, 'e) state \<Rightarrow> ('h, 'w word, 'e) state" where
  "rearm i t ex s = s\<lparr>timers := (timers s) (i := (timers s i)\<lparr>start := t, expires := ex\<rparr>)\<rparr>"

definition apply_result ::
  "header \<Rightarrow> nat \<Rightarrow> 'w word \<Rightarrow> 'w HandlerResult \<Rightarrow> ('h, 'w::len word, 'e) state \<Rightarrow> ('h, 'w word, 'e) state" where
  "apply_result hdr i t res s =
     (case res of (status, nxt) \<Rightarrow>
        (case status of
           Completed \<Rightarrow> remove (Some i) s
         | Repeat \<Rightarrow>
             (case hdr of
                Cpp17 \<Rightarrow>
                  if repeat (timers s i) > 0 then rearm i t (repeat (timers s i)) s
                  else remove (Some i) s
              | Legacy \<Rightarrow> rearm i t (repeat (timers s i)) s)
         | Reschedule \<Rightarrow> rearm i t nxt s))"

text \<open>
  The body of the first loop of \<open>tick\<close> for slot \<open>i\<close>. \<open>call h s\<close> is the call
  \<^verbatim>\<open>timer.handler()\<close> of the callable \<open>h\<close> in the state \<open>s\<close>: it gives the handler's
  result and the state the handler leaves (a handler may use the timer set and the
  world as it likes).
\<close>

definition tick_slot ::
  "header \<Rightarrow> ('e \<Rightarrow> 'w word \<times> 'e)
     \<Rightarrow> ('h \<Rightarrow> ('h, 'w word, 'e) state \<Rightarrow> 'w HandlerResult \<times> ('h, 'w word, 'e) state)
     \<Rightarrow> nat \<Rightarrow> ('h, 'w::len word, 'e) state \<Rightarrow> ('h, 'w word, 'e) state" where
  "tick_slot hdr now call i s =
     (case handler (timers s i) of
        None \<Rightarrow> s
      | Some h \<Rightarrow>
          (case read_clock now s of (t, s1) \<Rightarrow>
             let elapsed = t - start (timers s1 i) in
             if elapsed \<ge> expires (timers s1 i)
             then (case call h s1 of (res, s2) \<Rightarrow> apply_result hdr i t res s2)
             else s1))"

text \<open>The body of the second loop: the lowest remaining time so far.\<close>

definition lowest ::
  "'w word \<Rightarrow> ('h, 'w::len word, 'e) state \<Rightarrow> nat \<Rightarrow> 'w word \<Rightarrow> 'w word" where
  "lowest t s i next_expiration =
     (case handler (timers s i) of
        None \<Rightarrow> next_expiration
      | Some h \<Rightarrow>
          let remaining = expires (timers s i) - (t - start (timers s i)) in
          if remaining < next_expiration then remaining else next_expiration)"

text \<open>\<open>tick\<close>: the value returned and the state left. \<open>- 1\<close> is
  \<^verbatim>\<open>std::numeric_limits<Timepoint>::max()\<close>.\<close>

definition tick ::
  "header \<Rightarrow> nat \<Rightarrow> ('e \<Rightarrow> 'w word \<times> 'e)
     \<Rightarrow> ('h \<Rightarrow> ('h, 'w word, 'e) state \<Rightarrow> 'w HandlerResult \<times> ('h, 'w word, 'e) state)
     \<Rightarrow> ('h, 'w::len word, 'e) state \<Rightarrow> 'w word \<times> ('h, 'w word, 'e) state" where
  "tick hdr max_timers now call s =
     (let s1 = fold (tick_slot hdr now call) [0..<max_timers] s in
      case read_clock now s1 of (t, s2) \<Rightarrow>
        let next_expiration = fold (lowest t s2) [0..<max_timers] (- 1) in
        (if next_expiration = - 1 then 0 else next_expiration, s2))"

text \<open>
  \<open>tick\<close> from slot \<open>j\<close> on: the rest of the first loop (the slots \<open>j\<close>, \<open>j + 1\<close>, ...),
  then the clock reading, the second loop and the return. \<open>tick\<close> is \<open>tick_rest\<close> from
  slot 0.
\<close>

definition tick_rest ::
  "header \<Rightarrow> nat \<Rightarrow> ('e \<Rightarrow> 'w word \<times> 'e)
     \<Rightarrow> ('h \<Rightarrow> ('h, 'w word, 'e) state \<Rightarrow> 'w HandlerResult \<times> ('h, 'w word, 'e) state)
     \<Rightarrow> nat \<Rightarrow> ('h, 'w::len word, 'e) state \<Rightarrow> 'w word \<times> ('h, 'w word, 'e) state" where
  "tick_rest hdr max_timers now call j s =
     (let s1 = fold (tick_slot hdr now call) [j..<max_timers] s in
      case read_clock now s1 of (t, s2) \<Rightarrow>
        let next_expiration = fold (lowest t s2) [0..<max_timers] (- 1) in
        (if next_expiration = - 1 then 0 else next_expiration, s2))"

subsection \<open>A clock and handlers for running the operations\<close>

text \<open>
  A custom clock (\<^verbatim>\<open>Clock::custom<clock_func>\<close>, the template parameter \<open>time_func\<close> of
  the older header) that hands out the readings of a list one after the other, and 0
  when the list is used up. Its world is the list of the readings to come.
\<close>

definition script_clock :: "'w::len word list \<Rightarrow> 'w word \<times> 'w word list" where
  "script_clock rs = (case rs of [] \<Rightarrow> (0, []) | r # rs' \<Rightarrow> (r, rs'))"

text \<open>Handlers that only return a result and touch nothing: the callable is the
  result it returns.\<close>

definition const_call ::
  "'w HandlerResult \<Rightarrow> ('h, 'w::len word, 'e) state \<Rightarrow> 'w HandlerResult \<times> ('h, 'w word, 'e) state" where
  "const_call r s = (r, s)"

text \<open>The array of a timer set as \<open>create_default\<close> makes it: every handler empty,
  every field zero.\<close>

definition no_timers :: "nat \<Rightarrow> ('h, 'w::len word) Timer" where
  "no_timers i = \<lparr>handler = None, start = 0, expires = 0, repeat = 0\<rparr>"

text \<open>
  The same clock and the same handlers with a counter beside the readings to come:
  the clock leaves the counter alone, and each call of a handler adds one to it.
\<close>

definition counted_clock :: "'w::len word list \<times> nat \<Rightarrow> 'w word \<times> ('w word list \<times> nat)" where
  "counted_clock w = (fst (script_clock (fst w)), (snd (script_clock (fst w)), snd w))"

definition counting_call ::
  "'w HandlerResult \<Rightarrow> ('h, 'w::len word, 'e \<times> nat) state
     \<Rightarrow> 'w HandlerResult \<times> ('h, 'w word, 'e \<times> nat) state" where
  "counting_call r s = (r, s\<lparr>world := (fst (world s), Suc (snd (world s)))\<rparr>)"

text \<open>The same handlers, but with another \<open>next\<close> payload whenever the status is not
  \<open>Reschedule\<close>.\<close>

definition garble_next ::
  "'w HandlerResult \<Rightarrow> ('h, 'w::len word, 'e) state \<Rightarrow> 'w HandlerResult \<times> ('h, 'w word, 'e) state" where
  "garble_next r s = ((fst r, if fst r = Reschedule then snd r else snd r + 1), s)"

subsection \<open>The specification's words\<close>

text \<open>
  From the specification of \<open>tick\<close>: "over every still-Armed slot,
  \<open>remaining = expires - (now' - start)\<close>". The set of these values over the armed
  slots of the array, at the clock reading \<open>t\<close>.
\<close>

definition armed_remaining :: "nat \<Rightarrow> 'w word \<Rightarrow> ('h, 'w::len word, 'e) state \<Rightarrow> 'w word set" where
  "armed_remaining max_timers t s =
     (\<lambda>i. expires (timers s i) - (t - start (timers s i))) `
       {i \<in> {0..<max_timers}. handler (timers s i) \<noteq> None}"

text \<open>
  "The true minimum remaining time": the time a slot has left at the clock reading
  \<open>t\<close>, as an integer: its duration less the time elapsed since \<open>start\<close>. It is negative
  for a slot that is overdue.
\<close>

definition time_left :: "'w::len word \<Rightarrow> ('h, 'w word) Timer \<Rightarrow> int" where
  "time_left t tm = int (unat (expires tm)) - int (unat (t - start tm))"

text \<open>The free slots of the array.\<close>

definition free_slots :: "nat \<Rightarrow> ('h, 'w::len word, 'e) state \<Rightarrow> nat set" where
  "free_slots max_timers s = {i. i < max_timers \<and> handler (timers s i) = None}"

text \<open>
  "Any scheduling call": one of the four public operations that end in \<open>add_timer\<close>,
  with its arguments. \<open>schedule\<close> makes the call, \<open>schedule_all\<close> makes the calls of a
  list one after the other and collects the handles.
\<close>

datatype ('h, 't) request =
  In 't "'h Handler"
| At 't "'h Handler"
| Every 't "'h Handler"
| Now_and_every 't "'h Handler"

fun request_handler :: "('h, 't) request \<Rightarrow> 'h Handler" where
  "request_handler (In d h) = h"
| "request_handler (At w h) = h"
| "request_handler (Every d h) = h"
| "request_handler (Now_and_every d h) = h"

fun schedule ::
  "nat \<Rightarrow> ('e \<Rightarrow> 'w word \<times> 'e) \<Rightarrow> ('h, 'w word) request \<Rightarrow> ('h, 'w::len word, 'e) state
     \<Rightarrow> TimerHandle \<times> ('h, 'w word, 'e) state" where
  "schedule max_timers now (In d h) s = timer_in max_timers now d h s"
| "schedule max_timers now (At w h) s = timer_at max_timers now w h s"
| "schedule max_timers now (Every d h) s = every max_timers now d h s"
| "schedule max_timers now (Now_and_every d h) s = now_and_every max_timers now d h s"

fun schedule_all ::
  "nat \<Rightarrow> ('e \<Rightarrow> 'w word \<times> 'e) \<Rightarrow> ('h, 'w word) request list \<Rightarrow> ('h, 'w::len word, 'e) state
     \<Rightarrow> TimerHandle list \<times> ('h, 'w word, 'e) state" where
  "schedule_all max_timers now [] s = ([], s)"
| "schedule_all max_timers now (r # rs) s =
     (case schedule max_timers now r s of (handle, s1) \<Rightarrow>
        (case schedule_all max_timers now rs s1 of (handles, s2) \<Rightarrow> (handle # handles, s2)))"

subsection \<open>States for the examples\<close>

text \<open>An 8-bit clock shortly before it wraps, with the call counter at 0: the readings
  to come are 250, 3, 3, 4 and 4; and the state after \<open>in(10, h)\<close> took the first of
  them, in a timer set of two slots.\<close>

definition counted_idle :: "(8 HandlerResult, 8 word, 8 word list \<times> nat) state" where
  "counted_idle = \<lparr>timers = no_timers, world = ([250, 3, 3, 4, 4], 0)\<rparr>"

definition counted_armed :: "(8 HandlerResult, 8 word, 8 word list \<times> nat) state" where
  "counted_armed =
     \<lparr>timers = no_timers
        (0 := \<lparr>handler = Some (Completed, 0), start = 250, expires = 10, repeat = 0\<rparr>),
      world = ([3, 3, 4, 4], 0)\<rparr>"

text \<open>An 8-bit clock at 200, and the state after \<open>at(100, h)\<close> read it: the stored
  duration is \<open>100 - 200\<close>, which is 156 in 8 bits.\<close>

definition at_idle :: "(8 HandlerResult, 8 word, 8 word list) state" where
  "at_idle = \<lparr>timers = no_timers, world = [200, 99]\<rparr>"

definition at_armed :: "(8 HandlerResult, 8 word, 8 word list) state" where
  "at_armed =
     \<lparr>timers = no_timers
        (0 := \<lparr>handler = Some (Completed, 0), start = 200, expires = - 100, repeat = 0\<rparr>),
      world = [99]\<rparr>"

text \<open>A 32-bit timer set of one slot, armed at the reading 1000 with the longest delay
  there is (\<open>in(0xFFFFFFFF, h)\<close>); the clock still reads 1000.\<close>

definition far_armed :: "(32 HandlerResult, 32 word, 32 word list) state" where
  "far_armed =
     \<lparr>timers = no_timers
        (0 := \<lparr>handler = Some (Completed, 0), start = 1000, expires = - 1, repeat = 0\<rparr>),
      world = [1000, 1000]\<rparr>"

text \<open>Two armed slots, neither due at the readings 10 and 10; the last reading is 20.\<close>

definition two_armed :: "(32 HandlerResult, 32 word, 32 word list) state" where
  "two_armed =
     \<lparr>timers = no_timers
        (0 := \<lparr>handler = Some (Completed, 0), start = 0, expires = 100, repeat = 0\<rparr>,
         1 := \<lparr>handler = Some (Repeat, 0), start = 0, expires = 30, repeat = 30\<rparr>),
      world = [10, 10, 20]\<rparr>"

text \<open>Two armed slots, both due at the readings 10 and 12; the last reading is 20.\<close>

definition two_due :: "(32 HandlerResult, 32 word, 32 word list) state" where
  "two_due =
     \<lparr>timers = no_timers
        (0 := \<lparr>handler = Some (Completed, 7), start = 0, expires = 5, repeat = 0\<rparr>,
         1 := \<lparr>handler = Some (Repeat, 9), start = 0, expires = 5, repeat = 30\<rparr>),
      world = [10, 12, 20]\<rparr>"

text \<open>Two slots armed at the reading 0 with the delays 10 and 5; the first loop reads
  9 and 9, the handler of the second slot returns \<open>Reschedule\<close> with \<open>next = 600\<close>, and
  the clock reads 100 after the loop.\<close>

definition overdue_pair :: "(32 HandlerResult, 32 word, 32 word list) state" where
  "overdue_pair =
     \<lparr>timers = no_timers
        (0 := \<lparr>handler = Some (Completed, 0), start = 0, expires = 10, repeat = 0\<rparr>,
         1 := \<lparr>handler = Some (Reschedule, 600), start = 0, expires = 5, repeat = 0\<rparr>),
      world = [9, 9, 100]\<rparr>"

text \<open>One slot with the delay 10, not yet due at the reading 9 of the first loop and
  overdue by one unit at the reading 11 of the second.\<close>

definition overdue_by_one :: "(32 HandlerResult, 32 word, 32 word list) state" where
  "overdue_by_one =
     \<lparr>timers = no_timers
        (0 := \<lparr>handler = Some (Completed, 0), start = 0, expires = 10, repeat = 0\<rparr>),
      world = [9, 11]\<rparr>"

text \<open>A fresh timer set of one slot at the reading 0, and the state after \<open>in(5, h)\<close>
  for a handler \<open>h\<close> that returns \<open>Repeat\<close>; the clock then reads 5.\<close>

definition oneshot_idle :: "(32 HandlerResult, 32 word, 32 word list) state" where
  "oneshot_idle = \<lparr>timers = no_timers, world = [0, 5, 5]\<rparr>"

definition oneshot_due :: "(32 HandlerResult, 32 word, 32 word list) state" where
  "oneshot_due =
     \<lparr>timers = no_timers
        (0 := \<lparr>handler = Some (Repeat, 0), start = 0, expires = 5, repeat = 0\<rparr>),
      world = [5, 5]\<rparr>"

text \<open>A fresh timer set of one slot one second after the start of the clock, and the
  state after \<open>now_and_every(50, h)\<close>; the clock still reads 1000.\<close>

definition late_boot :: "('h, 32 word, 32 word list) state" where
  "late_boot = \<lparr>timers = no_timers, world = [1000, 1000, 1000]\<rparr>"

definition late_armed :: "'h \<Rightarrow> ('h, 32 word, 32 word list) state" where
  "late_armed h =
     \<lparr>timers = no_timers
        (0 := \<lparr>handler = Some h, start = 1000, expires = 1000, repeat = 50\<rparr>),
      world = [1000, 1000]\<rparr>"

section \<open>Properties\<close>

subsection \<open>Facts shared by the proofs\<close>

lemma find_upt_Some:
  "find P [0..<n] = Some i \<Longrightarrow> i < n \<and> P i \<and> (\<forall>j<i. \<not> P j)"
  by (auto simp: find_Some_iff)

lemma find_upt_None: "find P [0..<n] = None \<longleftrightarrow> (\<forall>i<n. \<not> P i)"
  by (auto simp: find_None_iff)

lemma Timer_all_fields:
  "(tm::('h, 't) Timer)\<lparr>handler := h, start := a, expires := b, repeat := c\<rparr>
     = \<lparr>handler = h, start = a, expires = b, repeat = c\<rparr>"
  by simp

text \<open>The clock has advanced by \<open>el\<close> units, less than its range, since the reading
  \<open>t0\<close>: the wrapping difference of the two readings is \<open>el\<close>.\<close>

lemma elapsed_wraps:
  fixes d t0 :: "'w::len word"
  assumes "el < 2 ^ LENGTH('w)"
  shows "(d \<le> (t0 + of_nat el) - t0) = (unat d \<le> el)"
  using assms by (simp add: word_le_nat_alt unat_of_nat)

text \<open>A time \<open>w\<close> behind the reading \<open>t\<close>: the wrapping difference is the range less
  the distance.\<close>

lemma unat_behind:
  fixes w t :: "'w::len word"
  assumes "unat w < unat t"
  shows "unat (w - t) = 2 ^ LENGTH('w) - (unat t - unat w)"
proof -
  have "unat t < 2 ^ LENGTH('w)" by (rule unsigned_less)
  with assms show ?thesis
    by (simp add: unat_sub_if_size word_size)
qed

lemma add_timer_Some:
  "add_timer n st ex h rp s = (Some i, s') \<Longrightarrow>
     i < n \<and> handler (timers s i) = None \<and>
     s' = s\<lparr>timers := (timers s)
            (i := (timers s i)\<lparr>handler := h, start := st, expires := ex, repeat := rp\<rparr>)\<rparr>"
  by (auto simp: add_timer_def next_timer_slot_def split: option.splits dest: find_upt_Some)

lemma tick_slot_free: "handler (timers s i) = None \<Longrightarrow> tick_slot hdr now call i s = s"
  by (simp add: tick_slot_def)

lemma fold_tick_slot_free:
  "\<forall>j\<in>set xs. handler (timers s j) = None \<Longrightarrow> fold (tick_slot hdr now call) xs s = s"
  by (induction xs) (simp_all add: tick_slot_free)

lemma tick_slot_armed:
  "handler (timers s i) = Some h \<Longrightarrow>
     tick_slot hdr now call i s =
       (case read_clock now s of (t, s1) \<Rightarrow>
          if t - start (timers s1 i) < expires (timers s1 i) then s1
          else (case call h s1 of (res, s2) \<Rightarrow> apply_result hdr i t res s2))"
  by (simp add: tick_slot_def read_clock_def Let_def not_le split: prod.splits)

text \<open>A slot that \<open>in(d, h)\<close> filled and that is still as scheduled, at a clock reading
  \<open>el\<close> units after the one \<open>in\<close> took.\<close>

lemma tick_slot_after_in:
  fixes s :: "('h, 'w::len word, 'e) state"
  assumes sched: "timer_in max_timers now d (Some h) s0 = (Some i, s_in)"
    and same: "timers s i = timers s_in i"
    and el: "el < 2 ^ LENGTH('w)"
    and rd: "fst (now (world s)) = fst (now (world s0)) + of_nat el"
  shows "i < max_timers"
    and "handler (timers s i) = Some h"
    and "start (timers s i) = fst (now (world s0))"
    and "expires (timers s i) = d"
    and "(fst (now (world s)) - start (timers s i) < expires (timers s i)) = (el < unat d)"
proof -
  from sched have "add_timer max_timers (fst (now (world s0))) d (Some h) 0
        (s0\<lparr>world := snd (now (world s0))\<rparr>) = (Some i, s_in)"
    by (simp add: timer_in_def read_clock_def)
  from add_timer_Some [OF this] same
  show slot: "i < max_timers" "handler (timers s i) = Some h"
    "start (timers s i) = fst (now (world s0))" "expires (timers s i) = d"
    by simp_all
  have "(d \<le> fst (now (world s)) - fst (now (world s0))) = (unat d \<le> el)"
    unfolding rd by (rule elapsed_wraps [OF el])
  with slot
  show "(fst (now (world s)) - start (timers s i) < expires (timers s i)) = (el < unat d)"
    by (simp add: not_le [symmetric])
qed

text \<open>The first loop of \<open>tick\<close> goes through the slots in the order of the array: it
  reaches slot \<open>i\<close> in the state the slots before it left.\<close>

lemma tick_rest_0: "tick hdr n now call s = tick_rest hdr n now call 0 s"
  by (simp add: tick_def tick_rest_def)

lemma upt_split: "i < n \<Longrightarrow> [0..<n] = [0..<i] @ i # [Suc i..<n]"
proof -
  assume "i < n"
  then have "[0..<i + (n - i)] = [0..<i] @ [i..<i + (n - i)]"
    by (intro upt_add_eq_append) simp
  with \<open>i < n\<close> show ?thesis
    by (simp add: upt_conv_Cons)
qed

lemma tick_split:
  "i < n \<Longrightarrow> tick hdr n now call s =
     tick_rest hdr n now call (Suc i)
       (tick_slot hdr now call i (fold (tick_slot hdr now call) [0..<i] s))"
  by (simp add: tick_def tick_rest_def upt_split [of i n])

text \<open>The second loop of \<open>tick\<close> computes a minimum.\<close>

lemma lowest_min:
  "lowest t s i a = (if handler (timers s i) = None then a
     else min (expires (timers s i) - (t - start (timers s i))) a)"
  by (auto simp: lowest_def Let_def min_def split: option.splits)

lemma Min_insert_min:
  fixes a :: "'a::linorder"
  shows "finite A \<Longrightarrow> Min (insert (min r a) A) = Min (insert a (insert r A))"
  by (cases "A = {}") (simp_all add: min.commute min.left_commute min.assoc)

lemma fold_lowest:
  "fold (lowest t s) xs a =
     Min (insert a ((\<lambda>i. expires (timers s i) - (t - start (timers s i))) `
       {i \<in> set xs. handler (timers s i) \<noteq> None}))"
proof (induction xs arbitrary: a)
  case Nil
  show ?case by simp
next
  case (Cons x xs)
  let ?r = "\<lambda>i. expires (timers s i) - (t - start (timers s i))"
  let ?A = "\<lambda>ys. ?r ` {i \<in> set ys. handler (timers s i) \<noteq> None}"
  have fin: "finite (?A xs)" by simp
  show ?case
  proof (cases "handler (timers s x) = None")
    case True
    then have "{i \<in> set (x # xs). handler (timers s i) \<noteq> None}
        = {i \<in> set xs. handler (timers s i) \<noteq> None}"
      by auto
    moreover from True have "lowest t s x a = a"
      by (simp add: lowest_min)
    ultimately show ?thesis using Cons.IH [of a] by simp
  next
    case False
    then have eq: "{i \<in> set (x # xs). handler (timers s i) \<noteq> None}
        = insert x {i \<in> set xs. handler (timers s i) \<noteq> None}"
      by auto
    have "lowest t s x a = min (?r x) a"
      using False by (auto simp: lowest_min)
    then have "fold (lowest t s) (x # xs) a = fold (lowest t s) xs (min (?r x) a)"
      by simp
    also have "\<dots> = Min (insert (min (?r x) a) (?A xs))"
      by (rule Cons.IH)
    also have "\<dots> = Min (insert a (insert (?r x) (?A xs)))"
      using fin by (rule Min_insert_min)
    finally show ?thesis unfolding eq by simp
  qed
qed

lemma fold_lowest_upt:
  "fold (lowest t s) [0..<n] a = Min (insert a (armed_remaining n t s))"
  unfolding fold_lowest armed_remaining_def by simp

lemma finite_armed_remaining [simp]: "finite (armed_remaining n t s)"
  by (simp add: armed_remaining_def)

lemma armed_remaining_0: "armed_remaining 0 t s = {}"
  by (simp add: armed_remaining_def)

lemma armed_remaining_Suc:
  "armed_remaining (Suc n) t s =
     (if handler (timers s n) = None then armed_remaining n t s
      else insert (expires (timers s n) - (t - start (timers s n))) (armed_remaining n t s))"
  by (auto simp: armed_remaining_def less_Suc_eq)

lemma Min_insert_max_word:
  fixes R :: "'w::len word set"
  assumes "finite R"
  shows "Min (insert (- 1) R) = (if R = {} then - 1 else Min R)"
proof (cases "R = {}")
  case True
  then show ?thesis by simp
next
  case False
  with assms have "Min (insert (- 1) R) = min (- 1) (Min R)"
    by (rule Min_insert)
  also have "\<dots> = Min R"
    by (rule min.absorb2) (rule max_word_max)
  finally show ?thesis using False by simp
qed

text \<open>What \<open>tick\<close> leaves and what it returns, in terms of the state \<open>s1\<close> after its
  first loop.\<close>

lemma tick_snd:
  "snd (tick hdr n now call s) =
     (let s1 = fold (tick_slot hdr now call) [0..<n] s in s1\<lparr>world := snd (now (world s1))\<rparr>)"
  by (simp add: tick_def read_clock_def Let_def)

lemma tick_fst:
  "fst (tick hdr n now call s) =
     (let s1 = fold (tick_slot hdr now call) [0..<n] s;
          m = Min (insert (- 1) (armed_remaining n (fst (now (world s1))) s1))
      in if m = - 1 then 0 else m)"
proof -
  define s1 where "s1 = fold (tick_slot hdr now call) [0..<n] s"
  define t where "t = fst (now (world s1))"
  define s2 where "s2 = s1\<lparr>world := snd (now (world s1))\<rparr>"
  have "armed_remaining n t s2 = armed_remaining n t s1"
    by (simp add: s2_def armed_remaining_def)
  then have "fold (lowest t s2) [0..<n] (- 1) = Min (insert (- 1) (armed_remaining n t s1))"
    unfolding fold_lowest armed_remaining_def by simp
  then show ?thesis
    by (simp add: tick_def read_clock_def Let_def s1_def [symmetric] t_def [symmetric]
        s2_def [symmetric])
qed

text \<open>Unfolding the operations on a concrete state.\<close>

lemmas run_simps =
  tick_def tick_slot_def lowest_def read_clock_def apply_result_def rearm_def remove_def
  script_clock_def const_call_def no_timers_def upt_rec Let_def

subsection \<open>C1: a slot fires exactly when it is due\<close>

lemma counted_idle_in:
  "timer_in 2 counted_clock 10 (Some (Completed, 0)) counted_idle = (Some 0, counted_armed)"
  by (simp add: timer_in_def read_clock_def add_timer_def next_timer_slot_def counted_idle_def
      counted_armed_def counted_clock_def script_clock_def no_timers_def upt_rec)

text \<open>
  C1. A run of \<open>tick\<close> reaches every slot \<open>i\<close> of the array, in the state \<open>s_i\<close> that
  the slots before it left. If the slot then holds a handler \<open>h\<close>, \<open>tick\<close> reads the
  clock once and compares the wrapping difference \<open>now - start\<close> with \<open>expires\<close>: when
  it is less, the slot is skipped and \<open>tick\<close> goes on with the next slot from the
  state as it was (only the clock has been read); otherwise \<open>h\<close> is called, once, its
  result is applied, and \<open>tick\<close> goes on from there. In particular, for a timer that
  \<open>in(d, h)\<close> put into slot \<open>i\<close> and that is still as scheduled when \<open>tick\<close> reaches
  it, \<open>el\<close> units (less than the range of the clock) after the reading that \<open>in\<close> took:
  \<open>tick\<close> skips the slot when \<open>el < d\<close> and calls \<open>h\<close> when \<open>el \<ge> d\<close>, whether or not
  the counter wrapped past zero in between. And when that timer is the only one and
  \<open>el < d\<close>, \<open>tick\<close> calls nothing: it leaves every slot as it was, so the timer is
  still as scheduled at the next tick, and returns the time left at its second clock
  reading. Both headers.
\<close>

theorem tick_fires_exactly_when_due:
  fixes s s0 s_in :: "('h, 'w::len word, 'e) state"
  shows
   "(let s_i = fold (tick_slot hdr now call) [0..<i] s in
      (i < max_timers \<and> handler (timers s_i i) = Some h \<longrightarrow>
         tick hdr max_timers now call s =
           (case read_clock now s_i of (t, s1) \<Rightarrow>
              tick_rest hdr max_timers now call (Suc i)
                (if t - start (timers s_i i) < expires (timers s_i i) then s1
                 else (case call h s1 of (res, s2) \<Rightarrow> apply_result hdr i t res s2))))
      \<and> (timer_in max_timers now d (Some h) s0 = (Some i, s_in) \<and> timers s_i i = timers s_in i
           \<and> el < 2 ^ LENGTH('w) \<and> fst (now (world s_i)) = fst (now (world s0)) + of_nat el \<longrightarrow>
         tick hdr max_timers now call s =
           (case read_clock now s_i of (t, s1) \<Rightarrow>
              tick_rest hdr max_timers now call (Suc i)
                (if el < unat d then s1
                 else (case call h s1 of (res, s2) \<Rightarrow> apply_result hdr i t res s2)))))
    \<and> (timer_in max_timers now d (Some h) s0 = (Some i, s_in) \<and> timers s i = timers s_in i
         \<and> (\<forall>j<max_timers. j \<noteq> i \<longrightarrow> handler (timers s j) = None)
         \<and> el < unat d \<and> fst (now (world s)) = fst (now (world s0)) + of_nat el \<longrightarrow>
       tick hdr max_timers now call s =
         (let left = d - (fst (now (snd (now (world s)))) - fst (now (world s0)))
          in (if left = - 1 then 0 else left, s\<lparr>world := snd (now (snd (now (world s))))\<rparr>)))"
proof -
  define s_i where "s_i = fold (tick_slot hdr now call) [0..<i] s"
  have reach: "tick hdr max_timers now call s =
        (case read_clock now s_i of (t, s1) \<Rightarrow>
           tick_rest hdr max_timers now call (Suc i)
             (if t - start (timers s_i i) < expires (timers s_i i) then s1
              else (case call h s1 of (res, s2) \<Rightarrow> apply_result hdr i t res s2)))"
    if "i < max_timers" "handler (timers s_i i) = Some h"
    using that tick_split [of i max_timers hdr now call s] tick_slot_armed [of s_i i h hdr now call]
    by (simp add: s_i_def read_clock_def)
  have first: "i < max_timers \<and> handler (timers s_i i) = Some h \<longrightarrow>
         tick hdr max_timers now call s =
           (case read_clock now s_i of (t, s1) \<Rightarrow>
              tick_rest hdr max_timers now call (Suc i)
                (if t - start (timers s_i i) < expires (timers s_i i) then s1
                 else (case call h s1 of (res, s2) \<Rightarrow> apply_result hdr i t res s2)))"
    using reach by blast
  have second: "tick hdr max_timers now call s =
           (case read_clock now s_i of (t, s1) \<Rightarrow>
              tick_rest hdr max_timers now call (Suc i)
                (if el < unat d then s1
                 else (case call h s1 of (res, s2) \<Rightarrow> apply_result hdr i t res s2)))"
    if a: "timer_in max_timers now d (Some h) s0 = (Some i, s_in) \<and> timers s_i i = timers s_in i
           \<and> el < 2 ^ LENGTH('w) \<and> fst (now (world s_i)) = fst (now (world s0)) + of_nat el"
  proof -
    from a have sched: "timer_in max_timers now d (Some h) s0 = (Some i, s_in)"
      and same: "timers s_i i = timers s_in i" and el: "el < 2 ^ LENGTH('w)"
      and rd: "fst (now (world s_i)) = fst (now (world s0)) + of_nat el"
      by simp_all
    note slot = tick_slot_after_in [OF sched same el rd]
    from reach [OF slot(1,2)] slot(5) show ?thesis
      by (simp add: read_clock_def)
  qed
  have third: "tick hdr max_timers now call s =
         (let left = d - (fst (now (snd (now (world s)))) - fst (now (world s0)))
          in (if left = - 1 then 0 else left, s\<lparr>world := snd (now (snd (now (world s))))\<rparr>))"
    if a: "timer_in max_timers now d (Some h) s0 = (Some i, s_in) \<and> timers s i = timers s_in i
         \<and> (\<forall>j<max_timers. j \<noteq> i \<longrightarrow> handler (timers s j) = None)
         \<and> el < unat d \<and> fst (now (world s)) = fst (now (world s0)) + of_nat el"
  proof -
    from a have sched: "timer_in max_timers now d (Some h) s0 = (Some i, s_in)"
      and same: "timers s i = timers s_in i"
      and others: "\<forall>j<max_timers. j \<noteq> i \<longrightarrow> handler (timers s j) = None"
      and early: "el < unat d"
      and rd: "fst (now (world s)) = fst (now (world s0)) + of_nat el"
      by simp_all
    have "unat d < 2 ^ LENGTH('w)" by (rule unsigned_less)
    with early have el: "el < 2 ^ LENGTH('w)" by (rule less_trans)
    note slot = tick_slot_after_in [OF sched same el rd]
    define s1 where "s1 = s\<lparr>world := snd (now (world s))\<rparr>"
    define t' where "t' = fst (now (world s1))"
    define s2 where "s2 = s1\<lparr>world := snd (now (world s1))\<rparr>"
    from others slot(1) have "\<forall>j\<in>set [0..<i]. handler (timers s j) = None"
      by simp
    then have before: "fold (tick_slot hdr now call) [0..<i] s = s"
      by (rule fold_tick_slot_free)
    from slot early have at_i: "tick_slot hdr now call i s = s1"
      by (simp add: tick_slot_armed read_clock_def s1_def)
    from others have "\<forall>j\<in>set [Suc i..<max_timers]. handler (timers s1 j) = None"
      by (simp add: s1_def)
    then have after: "fold (tick_slot hdr now call) [Suc i..<max_timers] s1 = s1"
      by (rule fold_tick_slot_free)
    have "{j \<in> {0..<max_timers}. handler (timers s2 j) \<noteq> None} = {i}"
      using others slot(1,2) by (auto simp: s2_def s1_def)
    then have "armed_remaining max_timers t' s2 = {d - (t' - fst (now (world s0)))}"
      using slot(3,4) by (simp add: armed_remaining_def s2_def s1_def)
    then have low: "fold (lowest t' s2) [0..<max_timers] (- 1) = d - (t' - fst (now (world s0)))"
      by (simp add: fold_lowest_upt min.absorb2)
    from slot(1)
    have "tick hdr max_timers now call s = tick_rest hdr max_timers now call (Suc i) s1"
      by (simp add: tick_split before at_i)
    with after low show ?thesis
      by (simp add: tick_rest_def read_clock_def Let_def t'_def [symmetric] s2_def [symmetric])
        (simp add: t'_def s2_def s1_def)
  qed
  from first second third show ?thesis
    by (simp add: Let_def s_i_def [symmetric])
qed

text \<open>
  On the 8-bit clock, with handlers that count their calls: \<open>in(10, h)\<close> at the
  reading 250 in a timer set of two slots. The tick that reads 3 (9 units later, past
  the wrap) calls no handler, changes no slot and returns 1; the next tick reads 4
  (10 units later), calls the handler once, and its \<open>Completed\<close> frees the slot.
\<close>

theorem tick_fires_exactly_when_due_witness:
  "timer_in 2 counted_clock 10 (Some (Completed, 0)) counted_idle = (Some 0, counted_armed)
   \<and> handler (timers counted_armed 0) = Some (Completed, 0)
   \<and> handler (timers counted_armed 1) = None
   \<and> fst (counted_clock (world counted_armed))
        = fst (counted_clock (world counted_idle)) + of_nat 9
   \<and> tick Cpp17 2 counted_clock counting_call counted_armed
        = (1, counted_armed\<lparr>world := ([4, 4], 0)\<rparr>)
   \<and> fst (counted_clock (world (counted_armed\<lparr>world := ([4, 4], 0)\<rparr>)))
        = fst (counted_clock (world counted_idle)) + of_nat 10
   \<and> tick Cpp17 2 counted_clock counting_call (counted_armed\<lparr>world := ([4, 4], 0)\<rparr>)
        = (0, \<lparr>timers = no_timers, world = ([], 1)\<rparr>)"
proof -
  let ?later = "counted_armed\<lparr>world := ([4, 4], 0)\<rparr>"
  have armed: "handler (timers counted_armed 0) = Some (Completed, 0)"
    "handler (timers ?later 0) = Some (Completed, 0)"
    by (simp_all add: counted_armed_def)
  have free: "handler (timers counted_armed 1) = None"
    by (simp add: counted_armed_def no_timers_def)
  then have others: "\<forall>j<2. j \<noteq> 0 \<longrightarrow> handler (timers counted_armed j) = None"
    by (simp add: less_2_cases_iff)
  have r9: "fst (counted_clock (world counted_armed))
      = fst (counted_clock (world counted_idle)) + of_nat 9"
    by (simp add: counted_armed_def counted_idle_def counted_clock_def script_clock_def)
  have r10: "fst (counted_clock (world ?later))
      = fst (counted_clock (world counted_idle)) + of_nat 10"
    by (simp add: counted_armed_def counted_idle_def counted_clock_def script_clock_def)
  note early = tick_fires_exactly_when_due
    [of Cpp17 counted_clock counting_call 0 counted_armed 2 "(Completed, 0)" 10
      counted_idle counted_armed 9]
  note due = tick_fires_exactly_when_due
    [of Cpp17 counted_clock counting_call 0 ?later 2 "(Completed, 0)" 10
      counted_idle counted_armed 10]
  from early [THEN conjunct2] counted_idle_in others r9
  have skip: "tick Cpp17 2 counted_clock counting_call counted_armed
      = (1, counted_armed\<lparr>world := ([4, 4], 0)\<rparr>)"
    by (simp add: Let_def counted_armed_def counted_idle_def counted_clock_def script_clock_def)
  from due [THEN conjunct1] armed counted_idle_in r10
  have "tick Cpp17 2 counted_clock counting_call ?later =
      tick_rest Cpp17 2 counted_clock counting_call (Suc 0)
        (apply_result Cpp17 0 4 (Completed, 0)
          (counted_armed\<lparr>world := ([4], 1)\<rparr>))"
    by (simp add: Let_def read_clock_def counting_call_def counted_clock_def script_clock_def
        counted_armed_def)
  also have "\<dots> = (0, \<lparr>timers = no_timers, world = ([], 1)\<rparr>)"
    by (simp add: tick_rest_def run_simps counted_clock_def counted_armed_def fun_upd_idem_iff)
  finally have fire: "tick Cpp17 2 counted_clock counting_call ?later
      = (0, \<lparr>timers = no_timers, world = ([], 1)\<rparr>)" .
  from counted_idle_in armed free r9 r10 skip fire show ?thesis
    by simp
qed

subsection \<open>C2: the value \<open>tick\<close> returns\<close>

lemma far_armed_tick:
  "tick Cpp17 1 script_clock const_call far_armed = (0, far_armed\<lparr>world := []\<rparr>)"
  by (simp add: run_simps far_armed_def)

lemma far_armed_pass:
  "fold (tick_slot Cpp17 script_clock const_call) [0..<1] far_armed
     = far_armed\<lparr>world := [1000]\<rparr>"
  by (simp add: run_simps far_armed_def)

lemma overdue_pair_pass:
  "fold (tick_slot Cpp17 script_clock const_call) [0..<2] overdue_pair =
     \<lparr>timers = no_timers
        (0 := \<lparr>handler = Some (Completed, 0), start = 0, expires = 10, repeat = 0\<rparr>,
         1 := \<lparr>handler = Some (Reschedule, 600), start = 9, expires = 600, repeat = 0\<rparr>),
      world = [100]\<rparr>"
  by (simp add: run_simps overdue_pair_def)

lemma overdue_pair_tick:
  "fst (tick Cpp17 2 script_clock const_call overdue_pair) = 509"
  by (simp add: run_simps overdue_pair_def)

text \<open>
  C2 as stated fails, twice. "\<open>tick\<close> returns the minimum remaining time over the
  slots still armed after the first loop, and 0 if none is armed": the one slot of
  \<open>far_armed\<close> has the longest delay there is and nothing has elapsed; it stays
  armed, its remaining time is the largest \<open>Timepoint\<close> and so is the minimum, yet
  \<open>tick\<close> returns 0. "The true minimum remaining time, including for slots that
  became overdue": in \<open>overdue_pair\<close> the first slot, with the delay 10, is skipped at
  the reading 9 and is still armed at the reading 100 after the loop, overdue by 90
  units, yet \<open>tick\<close> returns 509, the time left of the other slot, which is more than
  the first slot has left.
\<close>

theorem tick_minimum_counterexample:
  "\<not> (let s1 = fold (tick_slot Cpp17 script_clock const_call) [0..<1] far_armed;
            R = armed_remaining 1 (fst (script_clock (world s1))) s1
        in fst (tick Cpp17 1 script_clock const_call far_armed) = (if R = {} then 0 else Min R))
   \<and> \<not> (let s1 = fold (tick_slot Cpp17 script_clock const_call) [0..<2] overdue_pair;
              t = fst (script_clock (world s1))
          in handler (timers s1 0) \<noteq> None \<longrightarrow>
               int (unat (fst (tick Cpp17 2 script_clock const_call overdue_pair)))
                 \<le> time_left t (timers s1 0))"
proof (rule conjI)
  have "armed_remaining (Suc 0) 1000 (far_armed\<lparr>world := [1000]\<rparr>) = {- 1}"
    by (simp add: armed_remaining_Suc armed_remaining_0 far_armed_def)
  then show "\<not> (let s1 = fold (tick_slot Cpp17 script_clock const_call) [0..<1] far_armed;
            R = armed_remaining 1 (fst (script_clock (world s1))) s1
        in fst (tick Cpp17 1 script_clock const_call far_armed) = (if R = {} then 0 else Min R))"
    unfolding far_armed_pass far_armed_tick
    by (simp add: Let_def script_clock_def)
next
  show "\<not> (let s1 = fold (tick_slot Cpp17 script_clock const_call) [0..<2] overdue_pair;
              t = fst (script_clock (world s1))
          in handler (timers s1 0) \<noteq> None \<longrightarrow>
               int (unat (fst (tick Cpp17 2 script_clock const_call overdue_pair)))
                 \<le> time_left t (timers s1 0))"
    unfolding overdue_pair_pass overdue_pair_tick
    by (simp add: Let_def script_clock_def time_left_def)
qed

text \<open>
  C2, amended. Let \<open>s1\<close> be the state after the first loop of \<open>tick\<close> and \<open>now'\<close> a
  fresh reading of the clock in \<open>s1\<close>. If no slot armed in \<open>s1\<close> is overdue at \<open>now'\<close>
  (\<open>now' - start \<le> expires\<close> for each of them), then \<open>expires - (now' - start)\<close> is the
  time each of them has left, and \<open>tick\<close> returns the minimum of these values over
  the slots armed in \<open>s1\<close>, unless that minimum is the largest \<open>Timepoint\<close>, in which
  case it returns 0; it returns 0 when no slot is armed. Nothing is said of a run
  after which an armed slot is overdue. Both headers.
\<close>

theorem tick_returns_minimum_unless_max:
  fixes s :: "('h, 'w::len word, 'e) state"
  shows
   "(let s1 = fold (tick_slot hdr now call) [0..<max_timers] s;
         t = fst (now (world s1));
         R = armed_remaining max_timers t s1
     in (\<forall>j<max_timers. handler (timers s1 j) \<noteq> None \<longrightarrow>
            t - start (timers s1 j) \<le> expires (timers s1 j)) \<longrightarrow>
        fst (tick hdr max_timers now call s) =
          (if R = {} then 0 else if Min R = - 1 then 0 else Min R)
        \<and> (\<forall>j<max_timers. handler (timers s1 j) \<noteq> None \<longrightarrow>
              int (unat (expires (timers s1 j) - (t - start (timers s1 j))))
                = time_left t (timers s1 j)))"
proof -
  define s1 where "s1 = fold (tick_slot hdr now call) [0..<max_timers] s"
  define t where "t = fst (now (world s1))"
  define R where "R = armed_remaining max_timers t s1"
  have loop: "fst (tick hdr max_timers now call s) =
      (if Min (insert (- 1) R) = - 1 then 0 else Min (insert (- 1) R))"
    by (simp add: tick_fst Let_def s1_def [symmetric] t_def [symmetric] R_def [symmetric])
  have "finite R"
    by (simp add: R_def)
  then have "Min (insert (- 1) R) = (if R = {} then - 1 else Min R)"
    by (rule Min_insert_max_word)
  with loop have ret: "fst (tick hdr max_timers now call s) =
      (if R = {} then 0 else if Min R = - 1 then 0 else Min R)"
    by simp
  have left: "int (unat (expires (timers s1 j) - (t - start (timers s1 j))))
      = time_left t (timers s1 j)"
    if "t - start (timers s1 j) \<le> expires (timers s1 j)" for j
  proof -
    from that have "unat (t - start (timers s1 j)) \<le> unat (expires (timers s1 j))"
      by (simp add: word_le_nat_alt)
    moreover from that have "unat (expires (timers s1 j) - (t - start (timers s1 j)))
        = unat (expires (timers s1 j)) - unat (t - start (timers s1 j))"
      by (rule unat_sub)
    ultimately show ?thesis
      by (simp add: time_left_def of_nat_diff)
  qed
  from ret left show ?thesis
    by (simp add: Let_def s1_def [symmetric] t_def [symmetric] R_def [symmetric])
qed

text \<open>Two slots, both skipped by the first loop, with 80 and 10 units left at the last
  reading, 20: neither is overdue, and \<open>tick\<close> returns 10.\<close>

theorem tick_returns_minimum_unless_max_witness:
  "fold (tick_slot Cpp17 script_clock const_call) [0..<2] two_armed = two_armed\<lparr>world := [20]\<rparr>
   \<and> (20 :: 32 word) - start (timers two_armed 0) \<le> expires (timers two_armed 0)
   \<and> (20 :: 32 word) - start (timers two_armed 1) \<le> expires (timers two_armed 1)
   \<and> armed_remaining 2 20 (two_armed\<lparr>world := [20]\<rparr>) = {80, 10}
   \<and> time_left 20 (timers two_armed 0) = 80
   \<and> time_left 20 (timers two_armed 1) = 10
   \<and> fst (tick Cpp17 2 script_clock const_call two_armed) = 10"
proof -
  let ?s1 = "two_armed\<lparr>world := [20]\<rparr>"
  have pass: "fold (tick_slot Cpp17 script_clock const_call) [0..<2] two_armed = ?s1"
    by (simp add: run_simps two_armed_def)
  have el: "(20 :: 32 word) - start (timers two_armed 0) \<le> expires (timers two_armed 0)"
    "(20 :: 32 word) - start (timers two_armed 1) \<le> expires (timers two_armed 1)"
    by (simp_all add: two_armed_def)
  then have none_overdue: "\<forall>j<2. handler (timers ?s1 j) \<noteq> None \<longrightarrow>
      fst (script_clock (world ?s1)) - start (timers ?s1 j) \<le> expires (timers ?s1 j)"
    by (simp add: less_2_cases_iff script_clock_def)
  have R: "armed_remaining 2 20 ?s1 = {80, 10}"
    by (auto simp: numeral_2_eq_2 armed_remaining_Suc armed_remaining_0 two_armed_def)
  have tl: "time_left 20 (timers two_armed 0) = 80" "time_left 20 (timers two_armed 1) = 10"
    by (simp_all add: time_left_def two_armed_def)
  from tick_returns_minimum_unless_max [of Cpp17 script_clock const_call 2 two_armed]
    none_overdue R
  have "fst (tick Cpp17 2 script_clock const_call two_armed) = 10"
    unfolding pass Let_def by (simp add: script_clock_def)
  with pass el R tl show ?thesis
    by simp
qed

subsection \<open>C3: \<open>Repeat\<close> with a zero repeat interval\<close>

text \<open>The \<open>repeat\<close> case of the switch in the two headers.\<close>

lemma cpp17_repeat_zero_frees:
  "apply_result Cpp17 i t (Repeat, n) s =
     (if repeat (timers s i) > 0
      then s\<lparr>timers := (timers s)
             (i := (timers s i)\<lparr>start := t, expires := repeat (timers s i)\<rparr>)\<rparr>
      else s\<lparr>timers := (timers s)
             (i := \<lparr>handler = None, start = 0, expires = 0, repeat = 0\<rparr>)\<rparr>)"
  by (simp add: apply_result_def rearm_def remove_def Timer_all_fields)

lemma legacy_repeat_rearms:
  "apply_result Legacy i t (Repeat, n) s =
     s\<lparr>timers := (timers s)
         (i := (timers s i)\<lparr>start := t, expires := repeat (timers s i)\<rparr>)\<rparr>"
  by (simp add: apply_result_def rearm_def)

text \<open>
  C3 says that a due slot whose handler returns \<open>Repeat\<close> is rearmed with
  \<open>start = now\<close> and \<open>expires = repeat\<close> when \<open>repeat > 0\<close>, and freed when
  \<open>repeat = 0\<close>. The C++17 header does so (\<open>cpp17_repeat_zero_frees\<close>); the older
  header does not. After \<open>in(5, h)\<close> at the reading 0, with \<open>h\<close> returning \<open>Repeat\<close>,
  the tick at the reading 5 of \<^verbatim>\<open>arduino-timer.h\<close> leaves the slot armed with
  \<open>expires = 0\<close>, due again at every later tick, where the tick of
  \<^verbatim>\<open>arduino-timer-cpp17.hpp\<close> frees it.
\<close>

theorem legacy_repeat_zero_stays_armed:
  "timer_in 1 script_clock 5 (Some (Repeat, 0)) oneshot_idle = (Some 0, oneshot_due)
   \<and> tick Legacy 1 script_clock const_call oneshot_due =
       (0, \<lparr>timers = no_timers
              (0 := \<lparr>handler = Some (Repeat, 0), start = 5, expires = 0, repeat = 0\<rparr>),
            world = []\<rparr>)
   \<and> tick Cpp17 1 script_clock const_call oneshot_due = (0, \<lparr>timers = no_timers, world = []\<rparr>)"
  by (simp add: run_simps timer_in_def add_timer_def next_timer_slot_def oneshot_idle_def
      oneshot_due_def fun_upd_idem_iff)

subsection \<open>C4: the first firing after \<open>now_and_every\<close>\<close>

text \<open>\<open>now_and_every\<close> passes the clock reading as the duration too.\<close>

lemma now_and_every_stores:
  "next_timer_slot n s = Some i \<Longrightarrow>
     now_and_every n now interval h s =
       (Some i, s\<lparr>timers := (timers s)
           (i := \<lparr>handler = h, start = fst (now (world s)), expires = fst (now (world s)),
                  repeat = interval\<rparr>),
         world := snd (now (world s))\<rparr>)"
  by (simp add: now_and_every_def read_clock_def add_timer_def next_timer_slot_def
      Timer_all_fields)

text \<open>
  C4 says that the first tick after \<open>now_and_every(i, h)\<close> fires the timer, whatever
  the clock reads (duration 0). In both headers \<open>now_and_every\<close> stores the clock
  reading as the duration (\<^verbatim>\<open>add_timer(now, now, h, interval)\<close>), so the timer waits
  until the counter has doubled. With the clock at 1000: \<open>now_and_every(50, h)\<close> stores
  \<open>expires = 1000\<close>, and the next tick, still at 1000, calls no handler (the state it
  leaves does not depend on \<open>call\<close>) and returns 1000 as the time left.
\<close>

theorem now_and_every_first_fire_waits:
  "now_and_every 1 script_clock 50 (Some h) late_boot = (Some 0, late_armed h)
   \<and> tick hdr 1 script_clock call (late_armed h) = (1000, (late_armed h)\<lparr>world := []\<rparr>)"
  by (simp add: run_simps now_and_every_def add_timer_def next_timer_slot_def late_boot_def
      late_armed_def)

subsection \<open>C5: scheduling into a full pool\<close>

lemma finite_free_slots [simp]: "finite (free_slots n s)"
  by (simp add: free_slots_def)

lemma card_free_slots_le: "card (free_slots n s) \<le> n"
proof -
  have "free_slots n s \<subseteq> {..<n}" by (auto simp: free_slots_def)
  then have "card (free_slots n s) \<le> card {..<n}" by (intro card_mono) simp_all
  then show ?thesis by simp
qed

lemma free_slots_world [simp]: "free_slots n (s\<lparr>world := w\<rparr>) = free_slots n s"
  by (simp add: free_slots_def)

lemma next_timer_slot_None: "next_timer_slot n s = None \<longleftrightarrow> free_slots n s = {}"
  by (auto simp: next_timer_slot_def find_upt_None free_slots_def)

lemma add_timer_full:
  "free_slots n s = {} \<Longrightarrow> add_timer n st ex h rp s = (None, s)"
  using next_timer_slot_None [of n s] by (simp add: add_timer_def)

text \<open>A call with a handler that is not empty takes one free slot, if there is one.\<close>

lemma add_timer_free_slots:
  assumes "h \<noteq> None"
  shows "card (free_slots n (snd (add_timer n st ex h rp s))) = card (free_slots n s) - 1"
proof (cases "next_timer_slot n s")
  case None
  then show ?thesis
    using next_timer_slot_None [of n s] by (simp add: add_timer_def)
next
  case (Some i)
  then have i: "i < n" "handler (timers s i) = None"
    by (auto simp: next_timer_slot_def dest: find_upt_Some)
  have "free_slots n (snd (add_timer n st ex h rp s)) = free_slots n s - {i}"
    using Some assms by (auto simp: add_timer_def free_slots_def)
  moreover from i have "i \<in> free_slots n s" by (simp add: free_slots_def)
  ultimately show ?thesis by simp
qed

lemma schedule_free_slots:
  "request_handler r \<noteq> None \<Longrightarrow>
     card (free_slots n (snd (schedule n now r s))) = card (free_slots n s) - 1"
  by (cases r)
     (simp_all add: timer_in_def timer_at_def every_def now_and_every_def read_clock_def
       add_timer_free_slots)

lemma schedule_full:
  "free_slots n s = {} \<Longrightarrow> schedule n now r s = (None, s\<lparr>world := snd (now (world s))\<rparr>)"
  by (cases r)
     (simp_all add: timer_in_def timer_at_def every_def now_and_every_def read_clock_def
       add_timer_full)

lemma schedule_all_free_slots:
  "\<forall>r\<in>set rs. request_handler r \<noteq> None \<Longrightarrow>
     card (free_slots n (snd (schedule_all n now rs s))) = card (free_slots n s) - length rs"
proof (induction rs arbitrary: s)
  case Nil
  show ?case by simp
next
  case (Cons r rs)
  obtain handle s1 where s1: "schedule n now r s = (handle, s1)"
    by (cases "schedule n now r s")
  from Cons.prems have r: "request_handler r \<noteq> None"
    and rs: "\<forall>r\<in>set rs. request_handler r \<noteq> None"
    by simp_all
  from schedule_free_slots [OF r, of n now s] s1
  have "card (free_slots n s1) = card (free_slots n s) - 1" by simp
  with Cons.IH [OF rs, of s1] s1 show ?case
    by (simp add: case_prod_beta)
qed

text \<open>
  C5. When every slot of the array holds a handler, each of \<open>in\<close>, \<open>at\<close>, \<open>every\<close> and
  \<open>now_and_every\<close> returns the empty handle and leaves the state as it was but for
  the clock reading it took: no slot changes, and there is no other outcome (the
  operations neither throw nor abort). Hence after \<open>max_timers\<close> scheduling calls
  that each passed a handler, made from any state, one more call returns the empty
  handle and changes no slot. Both headers.
\<close>

theorem full_pool_rejects_scheduling:
  fixes s s0 :: "('h, 'w::len word, 'e) state"
  shows
   "((\<forall>i<max_timers. handler (timers s i) \<noteq> None) \<longrightarrow>
        schedule max_timers now r s = (None, s\<lparr>world := snd (now (world s))\<rparr>))
    \<and> (length rs = max_timers \<and> (\<forall>q\<in>set rs. request_handler q \<noteq> None) \<longrightarrow>
        (case schedule_all max_timers now rs s0 of (handles, s') \<Rightarrow>
           schedule max_timers now r s' = (None, s'\<lparr>world := snd (now (world s'))\<rparr>)))"
proof (intro conjI impI)
  assume "\<forall>i<max_timers. handler (timers s i) \<noteq> None"
  then have "free_slots max_timers s = {}" by (auto simp: free_slots_def)
  then show "schedule max_timers now r s = (None, s\<lparr>world := snd (now (world s))\<rparr>)"
    by (rule schedule_full)
next
  assume a: "length rs = max_timers \<and> (\<forall>q\<in>set rs. request_handler q \<noteq> None)"
  obtain handles s' where s': "schedule_all max_timers now rs s0 = (handles, s')"
    by (cases "schedule_all max_timers now rs s0")
  from a schedule_all_free_slots [of rs max_timers now s0] s'
  have "card (free_slots max_timers s') = card (free_slots max_timers s0) - max_timers"
    by simp
  with card_free_slots_le [of max_timers s0] have "card (free_slots max_timers s') = 0"
    by simp
  then have "free_slots max_timers s' = {}" by simp
  then have "schedule max_timers now r s' = (None, s'\<lparr>world := snd (now (world s'))\<rparr>)"
    by (rule schedule_full)
  with s' show "case schedule_all max_timers now rs s0 of (handles, s') \<Rightarrow>
           schedule max_timers now r s' = (None, s'\<lparr>world := snd (now (world s'))\<rparr>)"
    by simp
qed

text \<open>
  A pool of one slot. Armed: \<open>now_and_every\<close> returns the empty handle. Fresh: \<open>in\<close>
  takes the slot and returns its handle, and the second call, \<open>every\<close>, returns the
  empty handle and leaves the first timer as it was.
\<close>

theorem full_pool_rejects_scheduling_witness:
  "handler (timers far_armed 0) \<noteq> None
   \<and> schedule 1 script_clock (Now_and_every 7 (Some (Repeat, 0))) far_armed
       = (None, far_armed\<lparr>world := [1000]\<rparr>)
   \<and> request_handler (In 5 (Some (Repeat, 0)) :: (32 HandlerResult, 32 word) request) \<noteq> None
   \<and> schedule_all 1 script_clock [In 5 (Some (Repeat, 0))] oneshot_idle = ([Some 0], oneshot_due)
   \<and> schedule 1 script_clock (Every 7 (Some (Completed, 0))) oneshot_due
       = (None, oneshot_due\<lparr>world := [5]\<rparr>)"
proof -
  have full: "\<forall>i<1. handler (timers far_armed i) \<noteq> None"
    by (simp add: far_armed_def)
  have all: "schedule_all 1 script_clock [In 5 (Some (Repeat, 0))] oneshot_idle
      = ([Some 0], oneshot_due)"
    by (simp add: timer_in_def read_clock_def add_timer_def next_timer_slot_def script_clock_def
        no_timers_def oneshot_idle_def oneshot_due_def)
  have a: "schedule 1 script_clock (Now_and_every 7 (Some (Repeat, 0))) far_armed
       = (None, far_armed\<lparr>world := [1000]\<rparr>)"
    using full_pool_rejects_scheduling
      [of 1 far_armed script_clock "Now_and_every 7 (Some (Repeat, 0))"] full
    by (simp add: script_clock_def far_armed_def)
  have b: "schedule 1 script_clock (Every 7 (Some (Completed, 0))) oneshot_due
       = (None, oneshot_due\<lparr>world := [5]\<rparr>)"
    using full_pool_rejects_scheduling
      [of 1 _ script_clock "Every 7 (Some (Completed, 0))" "[In 5 (Some (Repeat, 0))]"
        oneshot_idle]
    unfolding all by (simp add: script_clock_def oneshot_due_def)
  from full a b all show ?thesis by simp
qed

subsection \<open>C6: \<open>cancel\<close>\<close>

text \<open>
  C6. \<open>cancel\<close> of the C++17 header changes nothing on the empty handle and nothing
  on a handle to a slot without a handler. On a handle to a slot with a handler it
  empties the handler and zeroes \<open>start\<close>, \<open>expires\<close> and \<open>repeat\<close> of that slot and
  leaves the rest of the state as it was. After \<open>cancel\<close> the slot holds no handler,
  so a second \<open>cancel\<close> through the same handle changes nothing, and for as long as
  the slot holds no handler the first loop of \<open>tick\<close> passes it over: no clock
  reading, no call.
\<close>

theorem cancel_idempotent_and_safe:
  fixes s s' :: "('h, 'w::len word, 'e) state"
  shows
   "cancel None s = (None, s)
    \<and> (handler (timers s i) = None \<longrightarrow> cancel (Some i) s = (Some i, s))
    \<and> (handler (timers s i) \<noteq> None \<longrightarrow>
         cancel (Some i) s =
           (Some i, s\<lparr>timers := (timers s)
              (i := \<lparr>handler = None, start = 0, expires = 0, repeat = 0\<rparr>)\<rparr>))
    \<and> handler (timers (snd (cancel (Some i) s)) i) = None
    \<and> cancel handle (snd (cancel handle s)) = (handle, snd (cancel handle s))
    \<and> (handler (timers s' i) = None \<longrightarrow> tick_slot hdr now call i s' = s')"
proof (intro conjI impI)
  show "cancel None s = (None, s)"
    by (simp add: cancel_def)
next
  assume "handler (timers s i) = None"
  then show "cancel (Some i) s = (Some i, s)"
    by (simp add: cancel_def)
next
  assume "handler (timers s i) \<noteq> None"
  then show "cancel (Some i) s =
      (Some i, s\<lparr>timers := (timers s)
         (i := \<lparr>handler = None, start = 0, expires = 0, repeat = 0\<rparr>)\<rparr>)"
    by (auto simp: cancel_def remove_def Timer_all_fields)
next
  show freed: "handler (timers (snd (cancel (Some i) s)) i) = None" for i
    by (simp add: cancel_def remove_def)
  show "cancel handle (snd (cancel handle s)) = (handle, snd (cancel handle s))"
  proof (cases handle)
    case None
    then show ?thesis by (simp add: cancel_def)
  next
    case (Some j)
    with freed [of j] show ?thesis by (simp add: cancel_def)
  qed
next
  assume "handler (timers s' i) = None"
  then show "tick_slot hdr now call i s' = s'"
    by (rule tick_slot_free)
qed

text \<open>
  On a free slot \<open>cancel\<close> changes nothing; on the armed slot of \<open>oneshot_due\<close> it
  gives back the fresh array; cancelling again changes nothing, and the loop body of
  \<open>tick\<close> passes the slot over.
\<close>

theorem cancel_idempotent_and_safe_witness:
  "handler (timers oneshot_idle 0) = None
   \<and> cancel (Some 0) oneshot_idle = (Some 0, oneshot_idle)
   \<and> handler (timers oneshot_due 0) \<noteq> None
   \<and> cancel (Some 0) oneshot_due = (Some 0, oneshot_idle\<lparr>world := [5, 5]\<rparr>)
   \<and> cancel (Some 0) (snd (cancel (Some 0) oneshot_due))
       = (Some 0, oneshot_idle\<lparr>world := [5, 5]\<rparr>)
   \<and> tick_slot Cpp17 script_clock const_call 0 (oneshot_idle\<lparr>world := [5, 5]\<rparr>)
       = oneshot_idle\<lparr>world := [5, 5]\<rparr>"
proof -
  have f: "handler (timers oneshot_idle 0) = None"
    "handler (timers (oneshot_idle\<lparr>world := [5, 5]\<rparr>) 0) = None"
    by (simp_all add: oneshot_idle_def no_timers_def)
  have a: "handler (timers oneshot_due 0) \<noteq> None"
    by (simp add: oneshot_due_def)
  have eq: "oneshot_due\<lparr>timers := (timers oneshot_due)
              (0 := \<lparr>handler = None, start = 0, expires = 0, repeat = 0\<rparr>)\<rparr>
      = oneshot_idle\<lparr>world := [5, 5]\<rparr>"
    by (simp add: oneshot_due_def oneshot_idle_def no_timers_def fun_upd_idem_iff)
  note c = cancel_idempotent_and_safe
    [of oneshot_idle 0 "Some 0" "oneshot_idle\<lparr>world := [5, 5]\<rparr>" Cpp17 script_clock const_call]
  note d = cancel_idempotent_and_safe
    [of oneshot_due 0 "Some 0" "oneshot_idle\<lparr>world := [5, 5]\<rparr>" Cpp17 script_clock const_call]
  from c f have 1: "cancel (Some 0) oneshot_idle = (Some 0, oneshot_idle)" by simp
  from d a eq have 2: "cancel (Some 0) oneshot_due = (Some 0, oneshot_idle\<lparr>world := [5, 5]\<rparr>)"
    by simp
  from d 2 have 3: "cancel (Some 0) (snd (cancel (Some 0) oneshot_due))
      = (Some 0, oneshot_idle\<lparr>world := [5, 5]\<rparr>)"
    by simp
  from d f have 4: "tick_slot Cpp17 script_clock const_call 0 (oneshot_idle\<lparr>world := [5, 5]\<rparr>)
       = oneshot_idle\<lparr>world := [5, 5]\<rparr>" by simp
  from f a 1 2 3 4 show ?thesis by simp
qed

subsection \<open>C7: \<open>at\<close> and a time that has passed\<close>

text \<open>
  C7. \<open>at(w, h)\<close> reads the clock once and stores, in the first free slot, the
  reading as \<open>start\<close>, the wrapping difference \<open>w - now\<close> as \<open>expires\<close>, and
  \<open>repeat = 0\<close>. When \<open>w\<close> is behind the reading by \<open>k\<close> units, the stored duration
  is the range of the clock less \<open>k\<close>: the timer does not fire at once, the first loop
  of \<open>tick\<close> skips it at every reading less than that many units after the reading
  that \<open>at\<close> took. Both headers.
\<close>

theorem at_stores_wrapping_difference:
  fixes s s' :: "('h, 'w::len word, 'e) state"
  shows
   "(next_timer_slot max_timers s = Some i \<longrightarrow>
       timer_at max_timers now w h s =
         (Some i, s\<lparr>timers := (timers s)
             (i := \<lparr>handler = h, start = fst (now (world s)),
                    expires = w - fst (now (world s)), repeat = 0\<rparr>),
           world := snd (now (world s))\<rparr>))
    \<and> (unat w < unat (fst (now (world s)))
         \<and> timer_at max_timers now w (Some c) s = (Some i, s_at) \<longrightarrow>
         unat (expires (timers s_at i)) = 2 ^ LENGTH('w) - (unat (fst (now (world s))) - unat w)
         \<and> (timers s' i = timers s_at i
              \<and> el < 2 ^ LENGTH('w) - (unat (fst (now (world s))) - unat w)
              \<and> fst (now (world s')) = fst (now (world s)) + of_nat el \<longrightarrow>
            tick_slot hdr now call i s' = s'\<lparr>world := snd (now (world s'))\<rparr>))"
proof (intro conjI impI)
  assume "next_timer_slot max_timers s = Some i"
  then show "timer_at max_timers now w h s =
         (Some i, s\<lparr>timers := (timers s)
             (i := \<lparr>handler = h, start = fst (now (world s)),
                    expires = w - fst (now (world s)), repeat = 0\<rparr>),
           world := snd (now (world s))\<rparr>)"
    by (simp add: timer_at_def read_clock_def add_timer_def next_timer_slot_def Timer_all_fields)
next
  assume a: "unat w < unat (fst (now (world s)))
      \<and> timer_at max_timers now w (Some c) s = (Some i, s_at)"
  then have "add_timer max_timers (fst (now (world s))) (w - fst (now (world s))) (Some c) 0
        (s\<lparr>world := snd (now (world s))\<rparr>) = (Some i, s_at)"
    by (simp add: timer_at_def read_clock_def)
  from add_timer_Some [OF this]
  have slot: "handler (timers s_at i) = Some c" "start (timers s_at i) = fst (now (world s))"
    "expires (timers s_at i) = w - fst (now (world s))"
    by simp_all
  from a have u: "unat (w - fst (now (world s)))
      = 2 ^ LENGTH('w) - (unat (fst (now (world s))) - unat w)"
    by (simp add: unat_behind)
  with slot show "unat (expires (timers s_at i))
      = 2 ^ LENGTH('w) - (unat (fst (now (world s))) - unat w)"
    by simp
  assume b: "timers s' i = timers s_at i
              \<and> el < 2 ^ LENGTH('w) - (unat (fst (now (world s))) - unat w)
              \<and> fst (now (world s')) = fst (now (world s)) + of_nat el"
  then have el: "el < 2 ^ LENGTH('w)" by arith
  from b u have lt: "el < unat (w - fst (now (world s)))" by simp
  have "(w - fst (now (world s)) \<le> fst (now (world s')) - fst (now (world s)))
      = (unat (w - fst (now (world s))) \<le> el)"
    using b elapsed_wraps [OF el] by simp
  with lt slot b show "tick_slot hdr now call i s' = s'\<lparr>world := snd (now (world s'))\<rparr>"
    by (simp add: tick_slot_def read_clock_def Let_def)
qed

text \<open>
  On the 8-bit clock at 200, \<open>at(100, h)\<close> stores the duration 156 = 256 - 100, and
  the tick 155 units later (the counter has wrapped to 99) skips the slot.
\<close>

theorem at_stores_wrapping_difference_witness:
  "next_timer_slot 1 at_idle = Some 0
   \<and> timer_at 1 script_clock 100 (Some (Completed, 0)) at_idle = (Some 0, at_armed)
   \<and> unat (100 :: 8 word) < unat (fst (script_clock (world at_idle)))
   \<and> unat (expires (timers at_armed 0)) = 156
   \<and> fst (script_clock (world at_armed)) = fst (script_clock (world at_idle)) + of_nat 155
   \<and> tick_slot Cpp17 script_clock const_call 0 at_armed = at_armed\<lparr>world := []\<rparr>"
proof -
  have free: "next_timer_slot 1 at_idle = Some 0"
    by (simp add: next_timer_slot_def at_idle_def no_timers_def)
  have behind: "unat (100 :: 8 word) < unat (fst (script_clock (world at_idle)))"
    by (simp add: at_idle_def script_clock_def)
  have rd: "fst (script_clock (world at_armed))
      = fst (script_clock (world at_idle)) + of_nat 155"
    by (simp add: at_idle_def at_armed_def script_clock_def)
  note c = at_stores_wrapping_difference
    [of 1 at_idle 0 script_clock 100 "Some (Completed, 0)" "(Completed, 0)" at_armed
      at_armed 155 Cpp17 const_call]
  from c free
  have sched: "timer_at 1 script_clock 100 (Some (Completed, 0)) at_idle = (Some 0, at_armed)"
    by (simp add: at_idle_def at_armed_def script_clock_def)
  from c behind sched have ex: "unat (expires (timers at_armed 0)) = 156"
    by (simp add: at_idle_def script_clock_def)
  from c behind sched rd
  have skip: "tick_slot Cpp17 script_clock const_call 0 at_armed = at_armed\<lparr>world := []\<rparr>"
    by (simp add: at_idle_def at_armed_def script_clock_def)
  from free sched behind ex rd skip show ?thesis by simp
qed

subsection \<open>C8: \<open>reschedule_in\<close> and \<open>reschedule_at\<close>\<close>

text \<open>
  C8. On a handle to a slot with a handler, \<open>reschedule_in(handle, delay)\<close> and
  \<open>reschedule_at(handle, when)\<close> of the C++17 header set \<open>start\<close> of that slot to the
  clock reading and \<open>expires\<close> to \<open>delay\<close> or to the wrapping difference
  \<open>when - now\<close>; \<open>handler\<close> and \<open>repeat\<close> of the slot and every other slot stay as
  they were. On the empty handle and on a handle to a slot without a handler no slot
  changes. In each case the clock has been read once.
\<close>

theorem reschedule_changes_start_and_expires_only:
  fixes s :: "('h, 'w::len word, 'e) state"
  shows
   "(handler (timers s i) \<noteq> None \<longrightarrow>
       reschedule_in now (Some i) delay s =
         (Some i, s\<lparr>timers := (timers s)
             (i := (timers s i)\<lparr>start := fst (now (world s)), expires := delay\<rparr>),
           world := snd (now (world s))\<rparr>)
       \<and> reschedule_at now (Some i) when s =
         (Some i, s\<lparr>timers := (timers s)
             (i := (timers s i)\<lparr>start := fst (now (world s)),
                                 expires := when - fst (now (world s))\<rparr>),
           world := snd (now (world s))\<rparr>))
    \<and> (handler (timers s i) = None \<longrightarrow>
       reschedule_in now (Some i) delay s = (Some i, s\<lparr>world := snd (now (world s))\<rparr>)
       \<and> reschedule_at now (Some i) when s = (Some i, s\<lparr>world := snd (now (world s))\<rparr>))
    \<and> reschedule_in now None delay s = (None, s\<lparr>world := snd (now (world s))\<rparr>)
    \<and> reschedule_at now None when s = (None, s\<lparr>world := snd (now (world s))\<rparr>)"
proof (intro conjI impI)
  assume live: "handler (timers s i) \<noteq> None"
  then show "reschedule_in now (Some i) delay s =
         (Some i, s\<lparr>timers := (timers s)
             (i := (timers s i)\<lparr>start := fst (now (world s)), expires := delay\<rparr>),
           world := snd (now (world s))\<rparr>)"
    by (auto simp: reschedule_in_def reschedule_timer_def read_clock_def)
  from live show "reschedule_at now (Some i) when s =
         (Some i, s\<lparr>timers := (timers s)
             (i := (timers s i)\<lparr>start := fst (now (world s)),
                                 expires := when - fst (now (world s))\<rparr>),
           world := snd (now (world s))\<rparr>)"
    by (auto simp: reschedule_at_def reschedule_timer_def read_clock_def)
next
  assume stale: "handler (timers s i) = None"
  then show "reschedule_in now (Some i) delay s = (Some i, s\<lparr>world := snd (now (world s))\<rparr>)"
    by (simp add: reschedule_in_def reschedule_timer_def read_clock_def)
  from stale
  show "reschedule_at now (Some i) when s = (Some i, s\<lparr>world := snd (now (world s))\<rparr>)"
    by (simp add: reschedule_at_def reschedule_timer_def read_clock_def)
next
  show "reschedule_in now None delay s = (None, s\<lparr>world := snd (now (world s))\<rparr>)"
    by (simp add: reschedule_in_def reschedule_timer_def read_clock_def)
  show "reschedule_at now None when s = (None, s\<lparr>world := snd (now (world s))\<rparr>)"
    by (simp add: reschedule_at_def reschedule_timer_def read_clock_def)
qed

text \<open>
  The armed slot of \<open>oneshot_due\<close> at the reading 5: \<open>reschedule_in\<close> with the delay
  20 and \<open>reschedule_at\<close> with the time 3 (behind the clock, so the duration wraps)
  keep the handler and \<open>repeat\<close>; on the free slot of \<open>oneshot_idle\<close> both change no
  slot.
\<close>

theorem reschedule_changes_start_and_expires_only_witness:
  "handler (timers oneshot_due 0) \<noteq> None
   \<and> reschedule_in script_clock (Some 0) 20 oneshot_due =
       (Some 0, \<lparr>timers = no_timers
          (0 := \<lparr>handler = Some (Repeat, 0), start = 5, expires = 20, repeat = 0\<rparr>),
         world = [5]\<rparr>)
   \<and> reschedule_at script_clock (Some 0) 3 oneshot_due =
       (Some 0, \<lparr>timers = no_timers
          (0 := \<lparr>handler = Some (Repeat, 0), start = 5, expires = - 2, repeat = 0\<rparr>),
         world = [5]\<rparr>)
   \<and> handler (timers oneshot_idle 0) = None
   \<and> reschedule_in script_clock (Some 0) 20 oneshot_idle
       = (Some 0, oneshot_idle\<lparr>world := [5, 5]\<rparr>)
   \<and> reschedule_at script_clock (Some 0) 3 oneshot_idle
       = (Some 0, oneshot_idle\<lparr>world := [5, 5]\<rparr>)"
proof -
  have live: "handler (timers oneshot_due 0) \<noteq> None"
    by (simp add: oneshot_due_def)
  have stale: "handler (timers oneshot_idle 0) = None"
    by (simp add: oneshot_idle_def no_timers_def)
  from reschedule_changes_start_and_expires_only [of oneshot_due 0 script_clock 20 3] live
  have 1: "reschedule_in script_clock (Some 0) 20 oneshot_due =
       (Some 0, \<lparr>timers = no_timers
          (0 := \<lparr>handler = Some (Repeat, 0), start = 5, expires = 20, repeat = 0\<rparr>),
         world = [5]\<rparr>)"
    and 2: "reschedule_at script_clock (Some 0) 3 oneshot_due =
       (Some 0, \<lparr>timers = no_timers
          (0 := \<lparr>handler = Some (Repeat, 0), start = 5, expires = - 2, repeat = 0\<rparr>),
         world = [5]\<rparr>)"
    by (simp_all add: oneshot_due_def script_clock_def)
  from reschedule_changes_start_and_expires_only [of oneshot_idle 0 script_clock 20 3] stale
  have 3: "reschedule_in script_clock (Some 0) 20 oneshot_idle
      = (Some 0, oneshot_idle\<lparr>world := [5, 5]\<rparr>)"
    and 4: "reschedule_at script_clock (Some 0) 3 oneshot_idle
      = (Some 0, oneshot_idle\<lparr>world := [5, 5]\<rparr>)"
    by (simp_all add: oneshot_idle_def script_clock_def)
  from live stale 1 2 3 4 show ?thesis by simp
qed

subsection \<open>C9: \<open>next\<close> is read under \<open>Reschedule\<close> only\<close>

lemma apply_result_ignores_next:
  "status \<noteq> Reschedule \<Longrightarrow>
     apply_result hdr i t (status, n1) s = apply_result hdr i t (status, n2) s"
  by (cases status) (simp_all add: apply_result_def)

text \<open>Two ways of running the handlers that agree on the status and on the state the
  handler leaves, and on \<open>next\<close> where the status is \<open>Reschedule\<close>: the loop body does
  the same with both.\<close>

lemma tick_slot_cong:
  assumes "\<And>h s. fst (fst (call1 h s)) = fst (fst (call2 h s))
          \<and> snd (call1 h s) = snd (call2 h s)
          \<and> (fst (fst (call1 h s)) = Reschedule
                \<longrightarrow> snd (fst (call1 h s)) = snd (fst (call2 h s)))"
  shows "tick_slot hdr now call1 i s = tick_slot hdr now call2 i s"
proof (cases "handler (timers s i)")
  case None
  then show ?thesis by (simp add: tick_slot_def)
next
  case (Some h)
  define s1 where "s1 = snd (read_clock now s)"
  obtain st1 n1 s2 where c1: "call1 h s1 = ((st1, n1), s2)"
    by (metis surj_pair)
  obtain st2 n2 s2' where c2: "call2 h s1 = ((st2, n2), s2')"
    by (metis surj_pair)
  from assms [of h s1] c1 c2
  have eq: "st2 = st1" "s2' = s2" "st1 = Reschedule \<longrightarrow> n2 = n1"
    by simp_all
  have "apply_result hdr i t (st1, n1) s2 = apply_result hdr i t (st1, n2) s2" for t
    using eq(3) apply_result_ignores_next [of st1 hdr i t n1 s2 n2]
    by (cases "st1 = Reschedule") simp_all
  with Some c1 c2 eq show ?thesis
    by (simp add: tick_slot_def Let_def s1_def read_clock_def)
qed

text \<open>
  C9. For a fired slot whose handler's status is not \<open>Reschedule\<close>, the state after
  the switch does not depend on \<open>next\<close>. So two runs of \<open>tick\<close> whose handlers
  return the same status and leave the same state, and differ at most in the \<open>next\<close>
  of results whose status is not \<open>Reschedule\<close>, return the same value and leave the
  same state. Under \<open>Reschedule\<close> the slot gets \<open>start = now\<close> and \<open>expires = next\<close>,
  whatever its \<open>repeat\<close> is. Both headers.
\<close>

theorem next_read_only_under_reschedule:
  fixes s s0 :: "('h, 'w::len word, 'e) state"
  shows
   "(status \<noteq> Reschedule \<longrightarrow>
       apply_result hdr i t (status, n1) s = apply_result hdr i t (status, n2) s)
    \<and> ((\<forall>h s. fst (fst (call1 h s)) = fst (fst (call2 h s))
               \<and> snd (call1 h s) = snd (call2 h s)
               \<and> (fst (fst (call1 h s)) = Reschedule
                     \<longrightarrow> snd (fst (call1 h s)) = snd (fst (call2 h s))))
        \<longrightarrow> tick hdr max_timers now call1 s0 = tick hdr max_timers now call2 s0)
    \<and> apply_result hdr i t (Reschedule, n1) s =
        s\<lparr>timers := (timers s) (i := (timers s i)\<lparr>start := t, expires := n1\<rparr>)\<rparr>"
proof (intro conjI impI)
  assume "status \<noteq> Reschedule"
  then show "apply_result hdr i t (status, n1) s = apply_result hdr i t (status, n2) s"
    by (rule apply_result_ignores_next)
next
  assume a: "\<forall>h s. fst (fst (call1 h s)) = fst (fst (call2 h s))
               \<and> snd (call1 h s) = snd (call2 h s)
               \<and> (fst (fst (call1 h s)) = Reschedule
                     \<longrightarrow> snd (fst (call1 h s)) = snd (fst (call2 h s)))"
  have "tick_slot hdr now call1 = tick_slot hdr now call2"
    by (intro ext tick_slot_cong) (use a in blast)
  then show "tick hdr max_timers now call1 s0 = tick hdr max_timers now call2 s0"
    by (simp add: tick_def)
next
  show "apply_result hdr i t (Reschedule, n1) s =
        s\<lparr>timers := (timers s) (i := (timers s i)\<lparr>start := t, expires := n1\<rparr>)\<rparr>"
    by (simp add: apply_result_def rearm_def)
qed

text \<open>
  Both slots of \<open>two_due\<close> fire, the first with \<open>Completed\<close> and the second with
  \<open>Repeat\<close>. With the \<open>next\<close> payloads 7 and 9 (\<open>const_call\<close>) and with 8 and 10
  (\<open>garble_next\<close>) \<open>tick\<close> returns 22 and leaves the same state.
\<close>

theorem next_read_only_under_reschedule_witness:
  "const_call (Completed, 7) two_due = ((Completed, 7), two_due)
   \<and> garble_next (Completed, 7) two_due = ((Completed, 8), two_due)
   \<and> apply_result Cpp17 0 10 (Completed, 7) two_due
       = apply_result Cpp17 0 10 (Completed, 8) two_due
   \<and> tick Cpp17 2 script_clock const_call two_due =
       (22, \<lparr>timers = no_timers
          (1 := \<lparr>handler = Some (Repeat, 9), start = 12, expires = 30, repeat = 30\<rparr>),
         world = []\<rparr>)
   \<and> tick Cpp17 2 script_clock garble_next two_due
       = tick Cpp17 2 script_clock const_call two_due"
proof -
  have hyp: "\<forall>h s. fst (fst (const_call h s)) = fst (fst (garble_next h s))
        \<and> snd (const_call h s)
            = snd (garble_next h (s :: (32 HandlerResult, 32 word, 32 word list) state))
        \<and> (fst (fst (const_call h s)) = Reschedule
              \<longrightarrow> snd (fst (const_call h s)) = snd (fst (garble_next h s)))"
    by (simp add: const_call_def garble_next_def)
  note c = next_read_only_under_reschedule
    [of Completed Cpp17 0 10 7 two_due 8 const_call garble_next 2 script_clock two_due]
  from c have 1: "apply_result Cpp17 0 10 (Completed, 7) two_due
      = apply_result Cpp17 0 10 (Completed, 8) two_due"
    by simp
  from c hyp have 2: "tick Cpp17 2 script_clock garble_next two_due
      = tick Cpp17 2 script_clock const_call two_due"
    by simp
  have 3: "tick Cpp17 2 script_clock const_call two_due =
       (22, \<lparr>timers = no_timers
          (1 := \<lparr>handler = Some (Repeat, 9), start = 12, expires = 30, repeat = 30\<rparr>),
         world = []\<rparr>)"
    by (simp add: run_simps two_due_def fun_eq_iff)
  from 1 2 3 show ?thesis
    by (simp add: const_call_def garble_next_def)
qed

subsection \<open>C10: 0 from \<open>tick\<close> does not mean an empty pool\<close>

text \<open>
  C10. \<open>tick\<close> starts its minimum from the largest \<open>Timepoint\<close> and returns 0 when
  the minimum is still that value. So when a slot \<open>i\<close> is armed after the first loop
  and the remaining time of every armed slot, computed at the last clock reading, is
  the largest \<open>Timepoint\<close> (a slot overdue by one unit, whose remaining time wraps
  below zero), \<open>tick\<close> returns 0 and slot \<open>i\<close> is still armed in the state it leaves.
  Both headers.
\<close>

theorem tick_zero_with_armed_slot:
  fixes s :: "('h, 'w::len word, 'e) state"
  shows
   "(let s1 = fold (tick_slot hdr now call) [0..<max_timers] s; t = fst (now (world s1)) in
       i < max_timers \<and> handler (timers s1 i) \<noteq> None
       \<and> (\<forall>j<max_timers. handler (timers s1 j) \<noteq> None \<longrightarrow>
              expires (timers s1 j) - (t - start (timers s1 j)) = - 1)
       \<longrightarrow> fst (tick hdr max_timers now call s) = 0
           \<and> handler (timers (snd (tick hdr max_timers now call s)) i) \<noteq> None)"
proof -
  define s1 where "s1 = fold (tick_slot hdr now call) [0..<max_timers] s"
  define t where "t = fst (now (world s1))"
  have "fst (tick hdr max_timers now call s) = 0
           \<and> handler (timers (snd (tick hdr max_timers now call s)) i) \<noteq> None"
    if i: "i < max_timers" "handler (timers s1 i) \<noteq> None"
      and all: "\<forall>j<max_timers. handler (timers s1 j) \<noteq> None \<longrightarrow>
              expires (timers s1 j) - (t - start (timers s1 j)) = - 1"
  proof -
    from all have "armed_remaining max_timers t s1 \<subseteq> {- 1}"
      by (auto simp: armed_remaining_def)
    moreover from i all have "- 1 \<in> armed_remaining max_timers t s1"
      by (force simp: armed_remaining_def)
    ultimately have ins: "insert (- 1) (armed_remaining max_timers t s1) = {- 1}"
      by auto
    have "Min (insert (- 1) (armed_remaining max_timers t s1)) = - 1"
      unfolding ins by simp
    then have "fst (tick hdr max_timers now call s) = 0"
      by (simp add: tick_fst Let_def s1_def [symmetric] t_def [symmetric])
    moreover have "handler (timers (snd (tick hdr max_timers now call s)) i) \<noteq> None"
      using i by (simp add: tick_snd Let_def s1_def [symmetric])
    ultimately show ?thesis by simp
  qed
  then show ?thesis
    by (simp add: Let_def s1_def [symmetric] t_def [symmetric])
qed

text \<open>
  The slot of \<open>overdue_by_one\<close> has the delay 10: at the reading 9 the first loop
  skips it, at the reading 11 its remaining time is \<open>10 - 11\<close>, the largest
  \<open>Timepoint\<close>, and \<open>tick\<close> returns 0 with the slot armed.
\<close>

theorem tick_zero_with_armed_slot_witness:
  "handler (timers (fold (tick_slot Cpp17 script_clock const_call) [0..<1] overdue_by_one) 0)
     \<noteq> None
   \<and> fst (tick Cpp17 1 script_clock const_call overdue_by_one) = 0
   \<and> handler (timers (snd (tick Cpp17 1 script_clock const_call overdue_by_one)) 0) \<noteq> None"
proof -
  have pass: "fold (tick_slot Cpp17 script_clock const_call) [0..<1] overdue_by_one
      = overdue_by_one\<lparr>world := [11]\<rparr>"
    by (simp add: run_simps overdue_by_one_def)
  have armed: "handler (timers (overdue_by_one\<lparr>world := [11]\<rparr>) 0) \<noteq> None"
    by (simp add: overdue_by_one_def)
  have rem: "expires (timers (overdue_by_one\<lparr>world := [11]\<rparr>) 0)
      - (fst (script_clock (world (overdue_by_one\<lparr>world := [11]\<rparr>)))
         - start (timers (overdue_by_one\<lparr>world := [11]\<rparr>) 0)) = - 1"
    by (simp add: overdue_by_one_def script_clock_def)
  from tick_zero_with_armed_slot [of Cpp17 script_clock const_call 1 overdue_by_one 0] armed rem
  have "fst (tick Cpp17 1 script_clock const_call overdue_by_one) = 0
    \<and> handler (timers (snd (tick Cpp17 1 script_clock const_call overdue_by_one)) 0) \<noteq> None"
    unfolding pass Let_def by simp
  with armed show ?thesis
    unfolding pass by simp
qed

end
